theory Spec2Isabelle
  imports Main "HOL-Library.Sublist"
begin

section \<open>JavaScript values used by the age calculator and the validators\<close>

text \<open>
  A JavaScript Number is modelled as \<open>NaN\<close> or an integer.  Every number the modelled
  code computes is a calendar field, a time value (at most \<open>8.64 * 10^15\<close> in magnitude)
  or a difference of two such values that stays below \<open>2^53\<close>, so double arithmetic is
  exact on them.
\<close>

datatype jsnum = NaN | Num int

text \<open>A JavaScript string is its sequence of UTF-16 code units.\<close>

type_synonym jsstring = "nat list"

text \<open>
  A Date object is its time value, a Number: milliseconds since the epoch, or \<open>NaN\<close>
  for an invalid Date.  An object literal is the list of its own properties; a lookup
  takes the first binding of a key.
\<close>

datatype jsval =
    Undefined
  | Null
  | JBool bool
  | JNum jsnum
  | JStr jsstring
  | JDate jsnum
  | JObj "(string \<times> jsval) list"

text \<open>
  What a call reads from its surroundings: the wall clock (\<open>new Date()\<close> with no
  argument) and the host's local time zone adjustment \<open>LocalTZA(t, isUTC)\<close> of
  ECMA-262, which is implementation-defined, and the host's \<open>Date.parse\<close>.
\<close>

record env =
  now :: int
  LocalTZA :: "int \<Rightarrow> bool \<Rightarrow> int"
  dateParse :: "jsstring \<Rightarrow> jsnum"

section \<open>ECMAScript time values and the calendar (ECMA-262, Date objects)\<close>

definition msPerDay :: int where
  "msPerDay = 86400000"

definition maxTime :: int where
  "maxTime = 8640000000000000"

definition Day :: "int \<Rightarrow> int" where
  "Day t = t div msPerDay"

definition TimeWithinDay :: "int \<Rightarrow> int" where
  "TimeWithinDay t = t mod msPerDay"

definition DaysInYear :: "int \<Rightarrow> int" where
  "DaysInYear y =
     (if y mod 4 \<noteq> 0 then 365
      else if y mod 100 \<noteq> 0 then 366
      else if y mod 400 \<noteq> 0 then 365
      else 366)"

definition DayFromYear :: "int \<Rightarrow> int" where
  "DayFromYear y =
     365 * (y - 1970) + (y - 1969) div 4 - (y - 1901) div 100 + (y - 1601) div 400"

definition TimeFromYear :: "int \<Rightarrow> int" where
  "TimeFromYear y = msPerDay * DayFromYear y"

text \<open>
  \<open>YearFromTime(t)\<close> is the largest year whose first day is not after \<open>t\<close>.  It is
  computed by walking up from a year that is certainly not too late.
\<close>

function year_up :: "int \<Rightarrow> int \<Rightarrow> int" where
  "year_up d y = (if DayFromYear (y + 1) \<le> d then year_up d (y + 1) else y)"
  by pat_completeness auto

definition year_start :: "int \<Rightarrow> int" where
  "year_start d = (if 0 \<le> d then 1970 + d div 366 else 1970 + d div 365)"

definition YearFromDay :: "int \<Rightarrow> int" where
  "YearFromDay d = year_up d (year_start d)"

definition YearFromTime :: "int \<Rightarrow> int" where
  "YearFromTime t = YearFromDay (Day t)"

definition InLeapYear :: "int \<Rightarrow> int" where
  "InLeapYear t = (if DaysInYear (YearFromTime t) = 366 then 1 else 0)"

definition DayWithinYear :: "int \<Rightarrow> int" where
  "DayWithinYear t = Day t - DayFromYear (YearFromTime t)"

definition MonthFromTime :: "int \<Rightarrow> int" where
  "MonthFromTime t =
     (let d = DayWithinYear t; l = InLeapYear t in
      if d < 31 then 0
      else if d < 59 + l then 1
      else if d < 90 + l then 2
      else if d < 120 + l then 3
      else if d < 151 + l then 4
      else if d < 181 + l then 5
      else if d < 212 + l then 6
      else if d < 243 + l then 7
      else if d < 273 + l then 8
      else if d < 304 + l then 9
      else if d < 334 + l then 10
      else 11)"

definition DateFromTime :: "int \<Rightarrow> int" where
  "DateFromTime t =
     (let d = DayWithinYear t; l = InLeapYear t; m = MonthFromTime t in
      if m = 0 then d + 1
      else if m = 1 then d - 30
      else if m = 2 then d - 58 - l
      else if m = 3 then d - 89 - l
      else if m = 4 then d - 119 - l
      else if m = 5 then d - 150 - l
      else if m = 6 then d - 180 - l
      else if m = 7 then d - 211 - l
      else if m = 8 then d - 242 - l
      else if m = 9 then d - 272 - l
      else if m = 10 then d - 303 - l
      else d - 333 - l)"


text \<open>
  \<open>MakeDay\<close> asks for the day number of the first of month \<open>mn\<close> in year \<open>ym\<close>;
  it is the first day of the year plus the days of the months before.  Integers are not
  bounded here, so a date out of range reaches \<open>TimeClip\<close>, which answers \<open>NaN\<close>.
\<close>

definition DaysBeforeMonth :: "int \<Rightarrow> int \<Rightarrow> int" where
  "DaysBeforeMonth l mn =
     (if mn = 0 then 0
      else if mn = 1 then 31
      else if mn = 2 then 59 + l
      else if mn = 3 then 90 + l
      else if mn = 4 then 120 + l
      else if mn = 5 then 151 + l
      else if mn = 6 then 181 + l
      else if mn = 7 then 212 + l
      else if mn = 8 then 243 + l
      else if mn = 9 then 273 + l
      else if mn = 10 then 304 + l
      else 334 + l)"

definition MakeDay :: "int \<Rightarrow> int \<Rightarrow> int \<Rightarrow> int" where
  "MakeDay year month date =
     (let ym = year + month div 12;
          mn = month mod 12;
          l = (if DaysInYear ym = 366 then 1 else 0)
      in DayFromYear ym + DaysBeforeMonth l mn + date - 1)"

definition MakeDate :: "int \<Rightarrow> int \<Rightarrow> int" where
  "MakeDate day time = day * msPerDay + time"

definition TimeClip :: "int \<Rightarrow> jsnum" where
  "TimeClip t = (if maxTime < \<bar>t\<bar> then NaN else Num t)"

definition LocalTime :: "env \<Rightarrow> int \<Rightarrow> int" where
  "LocalTime e t = t + LocalTZA e t True"

definition UTC :: "env \<Rightarrow> int \<Rightarrow> int" where
  "UTC e t = t - LocalTZA e t False"

text \<open>\<open>new Date(year, month, date)\<close>: the fields are read in local time.\<close>

definition MakeFullYear :: "int \<Rightarrow> int" where
  "MakeFullYear y = (if 0 \<le> y \<and> y \<le> 99 then 1900 + y else y)"

fun newDateYMD :: "env \<Rightarrow> jsnum \<Rightarrow> jsnum \<Rightarrow> jsnum \<Rightarrow> jsnum" where
  "newDateYMD e (Num y) (Num m) (Num dt) =
     TimeClip (UTC e (MakeDate (MakeDay (MakeFullYear y) m dt) 0))"
| "newDateYMD e _ _ _ = NaN"

text \<open>\<open>new Date(value)\<close> for a Number \<open>value\<close>.\<close>

fun newDateValue :: "jsnum \<Rightarrow> jsnum" where
  "newDateValue (Num v) = TimeClip v"
| "newDateValue NaN = NaN"

fun getFullYear :: "env \<Rightarrow> jsnum \<Rightarrow> jsnum" where
  "getFullYear e (Num t) = Num (YearFromTime (LocalTime e t))"
| "getFullYear e NaN = NaN"

fun getMonth :: "env \<Rightarrow> jsnum \<Rightarrow> jsnum" where
  "getMonth e (Num t) = Num (MonthFromTime (LocalTime e t))"
| "getMonth e NaN = NaN"

fun getDate :: "env \<Rightarrow> jsnum \<Rightarrow> jsnum" where
  "getDate e (Num t) = Num (DateFromTime (LocalTime e t))"
| "getDate e NaN = NaN"

fun getUTCFullYear :: "jsnum \<Rightarrow> jsnum" where
  "getUTCFullYear (Num t) = Num (YearFromTime t)"
| "getUTCFullYear NaN = NaN"

subsection \<open>Operators on Numbers\<close>

fun js_lt :: "jsnum \<Rightarrow> jsnum \<Rightarrow> bool" where
  "js_lt (Num a) (Num b) = (a < b)"
| "js_lt _ _ = False"

definition js_gt :: "jsnum \<Rightarrow> jsnum \<Rightarrow> bool" where
  "js_gt a b = js_lt b a"

fun js_ge :: "jsnum \<Rightarrow> jsnum \<Rightarrow> bool" where
  "js_ge (Num a) (Num b) = (b \<le> a)"
| "js_ge _ _ = False"

fun js_seq :: "jsnum \<Rightarrow> jsnum \<Rightarrow> bool" where
  "js_seq (Num a) (Num b) = (a = b)"
| "js_seq _ _ = False"

definition js_sne :: "jsnum \<Rightarrow> jsnum \<Rightarrow> bool" where
  "js_sne a b = (\<not> js_seq a b)"

fun js_sub :: "jsnum \<Rightarrow> jsnum \<Rightarrow> jsnum" where
  "js_sub (Num a) (Num b) = Num (a - b)"
| "js_sub _ _ = NaN"

fun js_abs :: "jsnum \<Rightarrow> jsnum" where
  "js_abs (Num a) = Num \<bar>a\<bar>"
| "js_abs NaN = NaN"

fun isNaN :: "jsnum \<Rightarrow> bool" where
  "isNaN NaN = True"
| "isNaN (Num _) = False"

subsection \<open>Truthiness, property access, exceptions\<close>

datatype js_exn = Error string | TypeError string

fun truthy :: "jsval \<Rightarrow> bool" where
  "truthy Undefined = False"
| "truthy Null = False"
| "truthy (JBool b) = b"
| "truthy (JNum NaN) = False"
| "truthy (JNum (Num n)) = (n \<noteq> 0)"
| "truthy (JStr s) = (s \<noteq> [])"
| "truthy (JDate _) = True"
| "truthy (JObj _) = True"

text \<open>
  \<open>key in v\<close>: an object answers whether it has the property (a Date has no \<open>birth\<close>);
  on a primitive the operator raises a TypeError, whose message is the engine's.
\<close>

fun js_in :: "string \<Rightarrow> jsval \<Rightarrow> js_exn + bool" where
  "js_in k (JObj ps) = Inr (k \<in> fst ` set ps)"
| "js_in k (JDate _) = Inr False"
| "js_in k _ = Inl (TypeError ''Cannot use 'in' operator'')"

fun js_get :: "jsval \<Rightarrow> string \<Rightarrow> jsval" where
  "js_get (JObj ps) k = (case map_of ps k of Some v \<Rightarrow> v | None \<Rightarrow> Undefined)"
| "js_get _ k = Undefined"

text \<open>\<open>v instanceof Date && !isNaN(v.getTime())\<close>\<close>

fun valid_Date :: "jsval \<Rightarrow> bool" where
  "valid_Date (JDate t) = (\<not> isNaN t)"
| "valid_Date _ = False"

fun time_of :: "jsval \<Rightarrow> jsnum" where
  "time_of (JDate t) = t"
| "time_of _ = NaN"

section \<open>The age calculator with a reference date\<close>

text \<open>
  The condition of the last guard: the Date rebuilt from the birth date's own local
  year, month and day differs from it in one of these fields.
\<close>

definition calendar_mismatch :: "env \<Rightarrow> jsnum \<Rightarrow> bool" where
  "calendar_mismatch e birth =
     (let existingDate = newDateYMD e (getFullYear e birth) (getMonth e birth) (getDate e birth)
      in js_sne (getFullYear e existingDate) (getFullYear e birth) \<or>
         js_sne (getMonth e existingDate) (getMonth e birth) \<or>
         js_sne (getDate e existingDate) (getDate e birth))"

text \<open>
  \<open>calculateAge(p, currentDate = new Date())\<close>, the documented function (lines 46 to 94
  of its file).  The reference date is a Date (its time value); \<open>None\<close> is the omitted
  argument, which defaults to the wall clock.
\<close>

definition calculateAge :: "env \<Rightarrow> jsval \<Rightarrow> jsnum option \<Rightarrow> js_exn + jsnum" where
  "calculateAge e p currentDate =
     (let cur = (case currentDate of None \<Rightarrow> Num (now e) | Some c \<Rightarrow> c) in
      if \<not> truthy p then Inl (Error ''missing param p'')
      else case js_in ''birth'' p of
        Inl x \<Rightarrow> Inl x
      | Inr False \<Rightarrow> Inl (Error ''missing birth field'')
      | Inr True \<Rightarrow>
         (if \<not> valid_Date (js_get p ''birth'') then Inl (Error ''birth must be a valid Date'')
          else let birth = time_of (js_get p ''birth'') in
            if js_lt (getFullYear e birth) (Num 1970) then Inl (Error ''invalid date'')
            else if js_gt birth cur then Inl (Error ''invalid date'')
            else if calendar_mismatch e birth then Inl (Error ''invalid date'')
            else
              let age = js_sub (getFullYear e cur) (getFullYear e birth);
                  hasHadBirthday =
                    (js_gt (getMonth e cur) (getMonth e birth) \<or>
                     (js_seq (getMonth e cur) (getMonth e birth) \<and>
                      js_ge (getDate e cur) (getDate e birth)))
              in Inr (if \<not> hasHadBirthday then js_sub age (Num 1) else age)))"

section \<open>The second age calculator, without a reference date\<close>

text \<open>
  \<open>calculateAge(p)\<close> (lines 7 to 50 of its file): the reference date is always the wall
  clock, and the age comes from the elapsed milliseconds.
\<close>

definition calculateAge2 :: "env \<Rightarrow> jsval \<Rightarrow> js_exn + jsnum" where
  "calculateAge2 e p =
     (if \<not> truthy p then Inl (Error ''missing param p'')
      else case js_in ''birth'' p of
        Inl x \<Rightarrow> Inl x
      | Inr False \<Rightarrow> Inl (Error ''missing birth field'')
      | Inr True \<Rightarrow>
         (if \<not> valid_Date (js_get p ''birth'') then Inl (Error ''birth must be a valid Date'')
          else let birth = time_of (js_get p ''birth''); now' = Num (now e) in
            if js_lt (getFullYear e birth) (Num 1970) then Inl (Error ''invalid date'')
            else if js_gt birth now' then Inl (Error ''invalid date'')
            else if calendar_mismatch e birth then Inl (Error ''invalid date'')
            else
              let dateDiff = newDateValue (js_sub now' birth)
              in Inr (js_abs (js_sub (getUTCFullYear dateDiff) (Num 1970)))))"

section \<open>Vocabulary of the statements about the age calculators\<close>



text \<open>
  The second calculator as the specification words it: no pre-1970 guard, no
  calendar-validity guard, the age from the elapsed milliseconds.
\<close>

definition calculateAge_unguarded_spec :: "env \<Rightarrow> jsval \<Rightarrow> js_exn + jsnum" where
  "calculateAge_unguarded_spec e p =
     (if \<not> truthy p then Inl (Error ''missing param p'')
      else case js_in ''birth'' p of
        Inl x \<Rightarrow> Inl x
      | Inr False \<Rightarrow> Inl (Error ''missing birth field'')
      | Inr True \<Rightarrow>
         (if \<not> valid_Date (js_get p ''birth'') then Inl (Error ''birth must be a valid Date'')
          else let birth = time_of (js_get p ''birth''); now' = Num (now e) in
            if js_gt birth now' then Inl (Error ''invalid date'')
            else Inr (js_abs (js_sub (getUTCFullYear (newDateValue (js_sub now' birth))) (Num 1970)))))"

section \<open>Hosts\<close>

text \<open>
  A sample \<open>Date.parse\<close>: it reads the date-only form \<open>YYYY-MM-DD\<close> of the ECMAScript
  date-time string format as midnight UTC and rejects every other string (what a host
  does with those is implementation-defined).
\<close>

definition is_digit :: "nat \<Rightarrow> bool" where
  "is_digit c = (48 \<le> c \<and> c \<le> 57)"

definition digits_value :: "nat list \<Rightarrow> int" where
  "digits_value ds = foldl (\<lambda>acc c. 10 * acc + (int c - 48)) 0 ds"

definition sampleDateParse :: "jsstring \<Rightarrow> jsnum" where
  "sampleDateParse s =
     (if length s = 10 \<and> s ! 4 = 45 \<and> s ! 7 = 45 \<and>
         list_all is_digit (take 4 s @ take 2 (drop 5 s) @ drop 8 s)
      then
        let y = digits_value (take 4 s);
            m = digits_value (take 2 (drop 5 s));
            d = digits_value (drop 8 s);
            t = MakeDate (MakeDay y (m - 1) d) 0
        in if 1 \<le> m \<and> m \<le> 12 \<and> 1 \<le> d \<and> MonthFromTime t = m - 1 then TimeClip t else NaN
      else NaN)"

text \<open>A host whose local time is a constant offset from UTC, at a given wall-clock time.\<close>

definition fixed_zone :: "int \<Rightarrow> int \<Rightarrow> env" where
  "fixed_zone off n = \<lparr> now = n, LocalTZA = (\<lambda>t isUTC. off), dateParse = sampleDateParse \<rparr>"






section \<open>Regular expressions\<close>

text \<open>
  The regular expressions of the validators use character classes, concatenation and
  greedy repetition only, with both anchors or with none.  On such an expression
  \<open>RegExp.prototype.test\<close> answers whether the string (anchored) or one of its substrings
  (not anchored) belongs to the language of the expression; membership is decided by
  derivatives.  A character class is a list of inclusive ranges of code units.
\<close>

datatype rx =
    Zero
  | One
  | Cls "(nat \<times> nat) list"
  | NCls "(nat \<times> nat) list"
  | Alt rx rx
  | Seq rx rx
  | Star rx

definition in_ranges :: "nat \<Rightarrow> (nat \<times> nat) list \<Rightarrow> bool" where
  "in_ranges c rs = list_ex (\<lambda>(lo, hi). lo \<le> c \<and> c \<le> hi) rs"

fun nullable :: "rx \<Rightarrow> bool" where
  "nullable Zero = False"
| "nullable One = True"
| "nullable (Cls rs) = False"
| "nullable (NCls rs) = False"
| "nullable (Alt r s) = (nullable r \<or> nullable s)"
| "nullable (Seq r s) = (nullable r \<and> nullable s)"
| "nullable (Star r) = True"

fun deriv :: "nat \<Rightarrow> rx \<Rightarrow> rx" where
  "deriv c Zero = Zero"
| "deriv c One = Zero"
| "deriv c (Cls rs) = (if in_ranges c rs then One else Zero)"
| "deriv c (NCls rs) = (if in_ranges c rs then Zero else One)"
| "deriv c (Alt r s) = Alt (deriv c r) (deriv c s)"
| "deriv c (Seq r s) =
     (if nullable r then Alt (Seq (deriv c r) s) (deriv c s) else Seq (deriv c r) s)"
| "deriv c (Star r) = Seq (deriv c r) (Star r)"

fun matches :: "rx \<Rightarrow> jsstring \<Rightarrow> bool" where
  "matches r [] = nullable r"
| "matches r (c # cs) = matches (deriv c r) cs"

text \<open>The quantifiers \<open>+\<close>, \<open>{n}\<close> and \<open>{n,}\<close>.\<close>

definition rx_plus :: "rx \<Rightarrow> rx" where
  "rx_plus r = Seq r (Star r)"

fun rx_exactly :: "nat \<Rightarrow> rx \<Rightarrow> rx" where
  "rx_exactly 0 r = One"
| "rx_exactly (Suc n) r = Seq r (rx_exactly n r)"

definition rx_at_least :: "nat \<Rightarrow> rx \<Rightarrow> rx" where
  "rx_at_least n r = Seq (rx_exactly n r) (Star r)"

text \<open>\<open>/^r$/\<close> and \<open>/r/\<close>, and \<open>test\<close> on a string.\<close>

datatype jsregex = Anchored rx | Unanchored rx

fun regex_test :: "jsregex \<Rightarrow> jsstring \<Rightarrow> bool" where
  "regex_test (Anchored r) s = matches r s"
| "regex_test (Unanchored r) s = list_ex (\<lambda>t. list_ex (matches r) (prefixes t)) (suffixes s)"

text \<open>The classes \<open>\d\<close> and \<open>\s\<close> (white space and line terminators) as ranges.\<close>

definition digit_ranges :: "(nat \<times> nat) list" where
  "digit_ranges = [(48, 57)]"

definition space_ranges :: "(nat \<times> nat) list" where
  "space_ranges =
     [(9, 13), (32, 32), (160, 160), (5760, 5760), (8192, 8202), (8232, 8233),
      (8239, 8239), (8287, 8287), (12288, 12288), (65279, 65279)]"

section \<open>The validators (src/utils/validator.js)\<close>

text \<open>A validator throws an object with a \<open>code\<close> and a \<open>message\<close>, or returns nothing.\<close>

record verror =
  code :: string
  message :: string

text \<open>\<open>typeof v === "string"\<close>, and the string of a value that is one.\<close>

fun is_string :: "jsval \<Rightarrow> bool" where
  "is_string (JStr s) = True"
| "is_string _ = False"

fun string_of :: "jsval \<Rightarrow> jsstring" where
  "string_of (JStr s) = s"
| "string_of _ = []"

definition validateAge :: "env \<Rightarrow> jsval \<Rightarrow> verror + unit" where
  "validateAge e birth =
     (if \<not> valid_Date birth
      then Inl \<lparr>code = ''INVALID_DATE'', message = ''Birth date is invalid''\<rparr>
      else
        let b = time_of birth; now' = Num (now e) in
        if js_gt b now'
        then Inl \<lparr>code = ''INVALID_DATE'', message = ''Birth date cannot be in the future''\<rparr>
        else
          let age = js_sub (getFullYear e now') (getFullYear e b);
              hasHadBirthday =
                (js_gt (getMonth e now') (getMonth e b) \<or>
                 (js_seq (getMonth e now') (getMonth e b) \<and>
                  js_ge (getDate e now') (getDate e b)));
              age' = (if \<not> hasHadBirthday then js_sub age (Num 1) else age)
          in if js_lt age' (Num 18)
             then Inl \<lparr>code = ''INVALID_AGE'', message = ''Must be at least 18 years old''\<rparr>
             else Inr ())"

text \<open>\<open>/^\d{5}$/\<close>\<close>

definition postCode_regex :: jsregex where
  "postCode_regex = Anchored (rx_exactly 5 (Cls digit_ranges))"

definition validatePostCode :: "jsval \<Rightarrow> verror + unit" where
  "validatePostCode pc =
     (if \<not> is_string pc \<or> \<not> regex_test postCode_regex (string_of pc)
      then Inl \<lparr>code = ''INVALID_POST_CODE'', message = ''Invalid post code''\<rparr>
      else Inr ())"

text \<open>
  \<open>/<[^>]*/\<close> and \<open>/^[A-Za-z\<dots>\-]+$/\<close>, whose class holds \<open>A-Z\<close>, \<open>a-z\<close>, the code units
  \<open>U+00C0\<close> to \<open>U+00D6\<close>, \<open>U+00D8\<close> to \<open>U+00F6\<close>, \<open>U+00F8\<close> to \<open>U+00FF\<close>, and the hyphen.
\<close>

definition tag_regex :: jsregex where
  "tag_regex = Unanchored (Seq (Cls [(60, 60)]) (Star (NCls [(62, 62)])))"

definition name_ranges :: "(nat \<times> nat) list" where
  "name_ranges = [(65, 90), (97, 122), (192, 214), (216, 246), (248, 255), (45, 45)]"

definition name_regex :: jsregex where
  "name_regex = Anchored (rx_plus (Cls name_ranges))"

definition validateIdentity :: "jsval \<Rightarrow> verror + unit" where
  "validateIdentity name =
     (if \<not> is_string name
      then Inl \<lparr>code = ''INVALID_IDENTITY'', message = ''Invalid name''\<rparr>
      else if regex_test tag_regex (string_of name)
      then Inl \<lparr>code = ''INVALID_IDENTITY'', message = ''XSS detected''\<rparr>
      else if \<not> regex_test name_regex (string_of name)
      then Inl \<lparr>code = ''INVALID_IDENTITY'', message = ''Invalid characters in name''\<rparr>
      else Inr ())"

text \<open>\<open>/^[a-zA-Z0-9._-]+@[a-zA-Z0-9.-]+\.[a-zA-Z]{2,}$/\<close>\<close>

definition email_regex :: jsregex where
  "email_regex =
     Anchored
       (Seq (rx_plus (Cls [(97, 122), (65, 90), (48, 57), (46, 46), (95, 95), (45, 45)]))
       (Seq (Cls [(64, 64)])
       (Seq (rx_plus (Cls [(97, 122), (65, 90), (48, 57), (46, 46), (45, 45)]))
       (Seq (Cls [(46, 46)])
            (rx_at_least 2 (Cls [(97, 122), (65, 90)]))))))"

definition validateEmail :: "jsval \<Rightarrow> verror + unit" where
  "validateEmail email =
     (if \<not> is_string email \<or> \<not> regex_test email_regex (string_of email)
      then Inl \<lparr>code = ''INVALID_EMAIL'', message = ''Invalid email format''\<rparr>
      else Inr ())"

text \<open>\<open>/^[A-Za-z\<dots>\s\-]+$/\<close>: the class of names with \<open>\s\<close> added.\<close>

definition town_regex :: jsregex where
  "town_regex =
     Anchored (rx_plus (Cls
       ([(65, 90), (97, 122), (192, 214), (216, 246), (248, 255)] @ space_ranges @ [(45, 45)])))"

definition validateTown :: "jsval \<Rightarrow> verror + unit" where
  "validateTown town =
     (if \<not> is_string town \<or> \<not> regex_test town_regex (string_of town)
      then Inl \<lparr>code = ''INVALID_TOWN'', message = ''Invalid town name''\<rparr>
      else Inr ())"

text \<open>A string literal of Latin-1 characters as a JavaScript string.\<close>

definition str :: "string \<Rightarrow> jsstring" where
  "str s = map of_char s"

section \<open>The language of a regular expression\<close>

definition conc :: "jsstring set \<Rightarrow> jsstring set \<Rightarrow> jsstring set" where
  "conc A B = {u @ v | u v. u \<in> A \<and> v \<in> B}"

inductive_set star :: "jsstring set \<Rightarrow> jsstring set" for A :: "jsstring set" where
  star_empty: "[] \<in> star A"
| star_step: "u \<in> A \<Longrightarrow> v \<in> star A \<Longrightarrow> u @ v \<in> star A"

fun lang :: "rx \<Rightarrow> jsstring set" where
  "lang Zero = {}"
| "lang One = {[]}"
| "lang (Cls rs) = {[c] | c. in_ranges c rs}"
| "lang (NCls rs) = {[c] | c. \<not> in_ranges c rs}"
| "lang (Alt r s) = lang r \<union> lang s"
| "lang (Seq r s) = conc (lang r) (lang s)"
| "lang (Star r) = star (lang r)"

section \<open>The form controller (src/component/Form.jsx)\<close>

text \<open>The six fields of the form state, strings as the inputs deliver them.\<close>

record form =
  lastname :: jsstring
  firstname :: jsstring
  email :: jsstring
  birth :: jsstring
  postCode :: jsstring
  town :: jsstring

text \<open>\<open>Object.entries(form)\<close>, in the order of \<open>initialState\<close>.\<close>

definition form_entries :: "form \<Rightarrow> (string \<times> jsstring) list" where
  "form_entries f =
     [(''lastname'', lastname f), (''firstname'', firstname f), (''email'', email f),
      (''birth'', birth f), (''postCode'', postCode f), (''town'', town f)]"

text \<open>\<open>String.prototype.trim\<close> removes white space and line terminators at both ends.\<close>

definition is_white_space :: "nat \<Rightarrow> bool" where
  "is_white_space c = in_ranges c space_ranges"

definition js_trim :: "jsstring \<Rightarrow> jsstring" where
  "js_trim s = dropWhile is_white_space (rev (dropWhile is_white_space (rev s)))"

text \<open>
  \<open>value === '' || value === null || value === undefined || String(value).trim() === ''\<close>
  on a string value, which is never \<open>null\<close> or \<open>undefined\<close>.
\<close>

definition is_blank :: "jsstring \<Rightarrow> bool" where
  "is_blank v = (v = [] \<or> js_trim v = [])"

text \<open>\<open>new Date(value)\<close> for a string: the host parses it.\<close>

definition newDateString :: "env \<Rightarrow> jsstring \<Rightarrow> jsnum" where
  "newDateString e s = (case dateParse e s of NaN \<Rightarrow> NaN | Num t \<Rightarrow> TimeClip t)"

text \<open>
  The \<open>catch\<close> of \<open>validateField\<close>: \<open>(err && (err.message || err.code)) || String(err)\<close>.
  An object thrown without a \<open>code\<close> has the empty one here.
\<close>

definition caught_text :: "verror \<Rightarrow> string" where
  "caught_text err =
     (if message err \<noteq> [] then message err
      else if code err \<noteq> [] then code err
      else ''[object Object]'')"

definition validateField_try :: "env \<Rightarrow> string \<Rightarrow> jsstring \<Rightarrow> verror + unit" where
  "validateField_try e name v =
     (if name = ''email'' then validateEmail (JStr v)
      else if name = ''lastname'' \<or> name = ''firstname'' then validateIdentity (JStr v)
      else if name = ''birth'' then
        (if v = [] then Inl \<lparr>code = [], message = ''Birth is required''\<rparr>
         else validateAge e (JDate (newDateString e v)))
      else if name = ''postCode'' then validatePostCode (JStr v)
      else if name = ''town'' then validateTown (JStr v)
      else Inr ())"

definition validateField :: "env \<Rightarrow> string \<Rightarrow> jsstring \<Rightarrow> string option" where
  "validateField e name v =
     (case validateField_try e name v of Inl err \<Rightarrow> Some (caught_text err) | Inr u \<Rightarrow> None)"

text \<open>The entry of \<open>newErrors\<close> that one field contributes, if any.\<close>

definition field_error :: "env \<Rightarrow> string \<Rightarrow> jsstring \<Rightarrow> string option" where
  "field_error e name v =
     (if is_blank v then Some ''This field is required''
      else case validateField e name v of
        Some fieldError \<Rightarrow> if fieldError \<noteq> [] then Some fieldError else None
      | None \<Rightarrow> None)"

record validation =
  newErrors :: "(string \<times> string) list"
  allFilled :: bool
  noErrors :: bool

definition validateForm :: "env \<Rightarrow> form \<Rightarrow> validation" where
  "validateForm e f =
     (let errs = List.map_filter
            (\<lambda>(name, v). map_option (Pair name) (field_error e name v)) (form_entries f)
      in \<lparr>newErrors = errs,
          allFilled = list_all (\<lambda>(name, v). \<not> is_blank v) (form_entries f),
          noErrors = (length errs = 0)\<rparr>)"

text \<open>The state \<open>isValid\<close> that \<open>validateForm\<close> sets; the submit button is disabled without it.\<close>

definition isValid :: "env \<Rightarrow> form \<Rightarrow> bool" where
  "isValid e f = (let r = validateForm e f in allFilled r \<and> noErrors r)"

section \<open>Vocabulary of the statements about the validators\<close>

text \<open>
  Latin letters are \<open>A-Z\<close> and \<open>a-z\<close>; the accented Latin letters are the letters of the
  Latin-1 supplement, \<open>U+00C0\<close> to \<open>U+00FF\<close> without the multiplication and the division
  sign; the hyphen is code unit 45, \<open><\<close> is 60, \<open>>\<close> is 62, \<open>@\<close> is 64, the dot is 46 and
  the underscore is 95.
\<close>

definition latin_letter :: "nat \<Rightarrow> bool" where
  "latin_letter c = ((65 \<le> c \<and> c \<le> 90) \<or> (97 \<le> c \<and> c \<le> 122))"

definition accented_latin_letter :: "nat \<Rightarrow> bool" where
  "accented_latin_letter c =
     ((192 \<le> c \<and> c \<le> 214) \<or> (216 \<le> c \<and> c \<le> 246) \<or> (248 \<le> c \<and> c \<le> 255))"

definition name_char :: "nat \<Rightarrow> bool" where
  "name_char c = (latin_letter c \<or> accented_latin_letter c \<or> c = 45)"

definition has_open_tag :: "jsstring \<Rightarrow> bool" where
  "has_open_tag s = (\<exists>u r w. s = u @ [60] @ r @ w \<and> 62 \<notin> set r)"

definition email_local_char :: "nat \<Rightarrow> bool" where
  "email_local_char c = (latin_letter c \<or> is_digit c \<or> c = 46 \<or> c = 95 \<or> c = 45)"

definition email_domain_char :: "nat \<Rightarrow> bool" where
  "email_domain_char c = (latin_letter c \<or> is_digit c \<or> c = 46 \<or> c = 45)"

definition email_shape :: "jsstring \<Rightarrow> bool" where
  "email_shape s =
     (\<exists>l d t. s = l @ [64] @ d @ [46] @ t \<and>
        l \<noteq> [] \<and> list_all email_local_char l \<and>
        d \<noteq> [] \<and> list_all email_domain_char d \<and>
        2 \<le> length t \<and> list_all latin_letter t)"

section \<open>Facts about the calendar\<close>

text \<open>Each year starts \<open>DaysInYear\<close> days after the one before.\<close>

lemma div_succ:
  fixes a k :: int
  assumes k: "0 < k"
  shows "(a + 1) div k = (if (a + 1) mod k = 0 then a div k + 1 else a div k)"
proof -
  define q r where "q = a div k" and "r = a mod k"
  have a: "a = k * q + r" and r: "0 \<le> r" "r < k"
    using k by (simp_all add: q_def r_def)
  show ?thesis
  proof (cases "r + 1 = k")
    case True
    then have "a + 1 = k * (q + 1) + 0" using a by (simp add: algebra_simps)
    then have "(a + 1) div k = q + 1" "(a + 1) mod k = 0"
      using k by (metis add.right_neutral nonzero_mult_div_cancel_left less_irrefl, metis add.right_neutral mod_mult_self1_is_0)
    then show ?thesis by (simp add: q_def)
  next
    case False
    then have lt: "r + 1 < k" using r by simp
    have eq: "a + 1 = k * q + (r + 1)" using a by simp
    have "(a + 1) div k = q"
      by (rule int_div_pos_eq [OF eq]) (use r lt in simp_all)
    moreover have "(a + 1) mod k = r + 1"
      by (rule int_mod_pos_eq [OF eq]) (use r lt in simp_all)
    ultimately show ?thesis using r by (simp add: q_def)
  qed
qed

lemma dvd_shift:
  fixes y k c :: int
  assumes "k dvd c"
  shows "(y - c) mod k = 0 \<longleftrightarrow> y mod k = 0"
  using assms by (simp add: mod_eq_0_iff_dvd dvd_diff_left_iff)

lemma leap_mods:
  fixes y :: int
  shows "(y - 1968) mod 4 = 0 \<longleftrightarrow> y mod 4 = 0"
    and "(y - 1900) mod 100 = 0 \<longleftrightarrow> y mod 100 = 0"
    and "(y - 1600) mod 400 = 0 \<longleftrightarrow> y mod 400 = 0"
    and "y mod 100 = 0 \<Longrightarrow> y mod 4 = 0"
    and "y mod 400 = 0 \<Longrightarrow> y mod 100 = 0"
proof -
  show "(y - 1968) mod 4 = 0 \<longleftrightarrow> y mod 4 = 0" by (rule dvd_shift) simp
  show "(y - 1900) mod 100 = 0 \<longleftrightarrow> y mod 100 = 0" by (rule dvd_shift) simp
  show "(y - 1600) mod 400 = 0 \<longleftrightarrow> y mod 400 = 0" by (rule dvd_shift) simp
  have "(4::int) dvd 100" by simp
  then show "y mod 100 = 0 \<Longrightarrow> y mod 4 = 0"
    by (metis dvd_trans mod_eq_0_iff_dvd)
  have "(100::int) dvd 400" by simp
  then show "y mod 400 = 0 \<Longrightarrow> y mod 100 = 0"
    by (metis dvd_trans mod_eq_0_iff_dvd)
qed

lemma DayFromYear_Suc: "DayFromYear (y + 1) = DayFromYear y + DaysInYear y"
proof -
  have a: "(y + 1 - 1969) div 4 = (if y mod 4 = 0 then (y - 1969) div 4 + 1 else (y - 1969) div 4)"
    using div_succ [of 4 "y - 1969"] leap_mods(1) [of y] by (simp add: algebra_simps)
  have b: "(y + 1 - 1901) div 100 = (if y mod 100 = 0 then (y - 1901) div 100 + 1 else (y - 1901) div 100)"
    using div_succ [of 100 "y - 1901"] leap_mods(2) [of y] by (simp add: algebra_simps)
  have c: "(y + 1 - 1601) div 400 = (if y mod 400 = 0 then (y - 1601) div 400 + 1 else (y - 1601) div 400)"
    using div_succ [of 400 "y - 1601"] leap_mods(3) [of y] by (simp add: algebra_simps)
  show ?thesis
    unfolding DayFromYear_def DaysInYear_def a b c
    using leap_mods(4,5) [of y] by (auto simp: algebra_simps)
qed

text \<open>The walk of \<open>year_up\<close> ends: the first day of the year moves towards the day.\<close>

termination year_up
proof (relation "measure (\<lambda>(d, y). nat (d - DayFromYear y))")
  show "wf (measure (\<lambda>(d, y). nat (d - DayFromYear y)))"
    by simp
next
  fix d y :: int
  assume le: "DayFromYear (y + 1) \<le> d"
  have "0 < DaysInYear y"
    by (simp add: DaysInYear_def)
  then show "((d, y + 1), (d, y)) \<in> measure (\<lambda>(d, y). nat (d - DayFromYear y))"
    using le by (simp add: DayFromYear_Suc)
qed

declare year_up.simps [simp del]

lemma DaysInYear_cases: "DaysInYear y = 365 \<or> DaysInYear y = 366"
  by (simp add: DaysInYear_def)

lemma DayFromYear_mono: "y \<le> z \<Longrightarrow> DayFromYear y \<le> DayFromYear z"
proof (induction z rule: int_ge_induct)
  case base
  show ?case by simp
next
  case (step i)
  then show ?case using DaysInYear_cases [of i] by (auto simp: DayFromYear_Suc)
qed

lemma DayFromYear_strict: "y < z \<Longrightarrow> DayFromYear (y + 1) \<le> DayFromYear z"
  by (rule DayFromYear_mono) simp

lemma DayFromYear_upper: "1970 \<le> y \<Longrightarrow> DayFromYear y \<le> 366 * (y - 1970)"
proof (induction y rule: int_ge_induct)
  case base
  show ?case by (simp add: DayFromYear_def)
next
  case (step i)
  then show ?case using DaysInYear_cases [of i] by (auto simp: DayFromYear_Suc)
qed

lemma DayFromYear_upper_neg: "y \<le> 1970 \<Longrightarrow> DayFromYear y \<le> 365 * (y - 1970)"
proof (induction y rule: int_le_induct)
  case base
  show ?case by (simp add: DayFromYear_def)
next
  case (step i)
  then show ?case using DaysInYear_cases [of "i - 1"] DayFromYear_Suc [of "i - 1"] by auto
qed


lemma year_start_le: "DayFromYear (year_start d) \<le> d"
proof (cases "0 \<le> d")
  case True
  then have "1970 \<le> year_start d" by (simp add: year_start_def pos_imp_zdiv_nonneg_iff)
  from DayFromYear_upper [OF this] have "DayFromYear (year_start d) \<le> 366 * (d div 366)"
    using True by (simp add: year_start_def)
  also have "\<dots> \<le> d" by simp
  finally show ?thesis .
next
  case False
  then have "year_start d \<le> 1970" by (simp add: year_start_def div_int_pos_iff) 
  from DayFromYear_upper_neg [OF this] have "DayFromYear (year_start d) \<le> 365 * (d div 365)"
    using False by (simp add: year_start_def)
  also have "\<dots> \<le> d" by simp
  finally show ?thesis .
qed

lemma year_up_bounds:
  "DayFromYear y \<le> d \<Longrightarrow>
     DayFromYear (year_up d y) \<le> d \<and> d < DayFromYear (year_up d y + 1)"
proof (induction d y rule: year_up.induct)
  case (1 d y)
  show ?case
  proof (cases "DayFromYear (y + 1) \<le> d")
    case True
    with 1 show ?thesis by (subst (1 2) year_up.simps) simp
  next
    case False
    with 1 show ?thesis by (subst (1 2) year_up.simps) simp
  qed
qed

lemma YearFromDay_bounds:
  "DayFromYear (YearFromDay d) \<le> d \<and> d < DayFromYear (YearFromDay d + 1)"
  unfolding YearFromDay_def by (rule year_up_bounds [OF year_start_le])


lemma YearFromDay_mono: "a \<le> b \<Longrightarrow> YearFromDay a \<le> YearFromDay b"
proof (rule ccontr)
  assume ab: "a \<le> b" and "\<not> YearFromDay a \<le> YearFromDay b"
  then have "YearFromDay b < YearFromDay a" by simp
  from DayFromYear_strict [OF this]
  have "DayFromYear (YearFromDay b + 1) \<le> DayFromYear (YearFromDay a)" .
  with YearFromDay_bounds [of a] YearFromDay_bounds [of b] ab show False by simp
qed


lemma DayWithinYear_bounds:
  "0 \<le> DayWithinYear t \<and> DayWithinYear t < DaysInYear (YearFromTime t)"
  using YearFromDay_bounds [of "Day t"]
  by (simp add: DayWithinYear_def YearFromTime_def DayFromYear_Suc)







lemma fields_next_day:
  assumes "Day b = Day a + 1"
  shows "YearFromTime a < YearFromTime b \<or>
         (YearFromTime a = YearFromTime b \<and>
          (MonthFromTime a < MonthFromTime b \<or>
           (MonthFromTime a = MonthFromTime b \<and> DateFromTime a < DateFromTime b)))"
proof (cases "YearFromTime a = YearFromTime b")
  case True
  then have l: "InLeapYear a = InLeapYear b"
    by (simp add: InLeapYear_def)
  have d: "DayWithinYear b = DayWithinYear a + 1"
    using assms True by (simp add: DayWithinYear_def)
  have l01: "InLeapYear b = 0 \<or> InLeapYear b = 1"
    by (simp add: InLeapYear_def)
  have "MonthFromTime a < MonthFromTime b \<or>
        (MonthFromTime a = MonthFromTime b \<and> DateFromTime a < DateFromTime b)"
    unfolding DateFromTime_def MonthFromTime_def Let_def d l
    using l01 by auto
  with True show ?thesis by simp
next
  case False
  have "YearFromTime a \<le> YearFromTime b"
    unfolding YearFromTime_def using assms by (intro YearFromDay_mono) simp
  with False show ?thesis by simp
qed

section \<open>Facts about hosts and the calendar guard\<close>

lemma fixed_zone_simps [simp]:
  "LocalTime (fixed_zone off n) t = t + off"
  "UTC (fixed_zone off n) t = t - off"
  "now (fixed_zone off n) = n"
  by (simp_all add: fixed_zone_def LocalTime_def UTC_def)









section \<open>Evaluation of closed calendar terms\<close>

lemma year_up_numeral:
  "year_up (numeral d) (numeral y) =
     (if DayFromYear (numeral y + 1) \<le> numeral d then year_up (numeral d) (numeral y + 1)
      else numeral y)"
  "year_up (- numeral d) (numeral y) =
     (if DayFromYear (numeral y + 1) \<le> - numeral d then year_up (- numeral d) (numeral y + 1)
      else numeral y)"
  "year_up 0 (numeral y) =
     (if DayFromYear (numeral y + 1) \<le> 0 then year_up 0 (numeral y + 1) else numeral y)"
  "year_up 1 (numeral y) =
     (if DayFromYear (numeral y + 1) \<le> 1 then year_up 1 (numeral y + 1) else numeral y)"
  "year_up (- 1) (numeral y) =
     (if DayFromYear (numeral y + 1) \<le> - 1 then year_up (- 1) (numeral y + 1) else numeral y)"
  by (subst year_up.simps, rule refl)+

lemmas calendar_eval =
  YearFromTime_def YearFromDay_def year_start_def year_up_numeral Day_def msPerDay_def
  DayFromYear_def MonthFromTime_def DateFromTime_def DayWithinYear_def InLeapYear_def
  DaysInYear_def Let_def

lemmas date_eval =
  calendar_eval LocalTime_def UTC_def fixed_zone_def calendar_mismatch_def MakeDay_def
  MakeDate_def MakeFullYear_def DaysBeforeMonth_def TimeClip_def maxTime_def js_gt_def js_sne_def

lemma valid_Date_iff: "valid_Date v \<longleftrightarrow> (\<exists>b. v = JDate (Num b))"
  by (cases v rule: valid_Date.cases) (auto elim: isNaN.elims)

section \<open>The age calculator: returned age\<close>



section \<open>The age calculator: failures\<close>







section \<open>The calendar guard of both calculators\<close>







section \<open>The second calculator against the first\<close>

text \<open>
  As stated, claim C3 does not hold: the unnamed copy has the pre-1970 guard (and the
  calendar guard).  For a birth at noon UTC on 1969-12-31, not after the wall clock, it
  raises \<open>invalid date\<close>, where a calculator without these guards returns 56.
\<close>

theorem calculateAge2_guards_counterexample:
  "calculateAge2 (fixed_zone 0 1793707200000) (JObj [(''birth'', JDate (Num (- 43200000)))]) =
     Inl (Error ''invalid date'') \<and>
   calculateAge_unguarded_spec (fixed_zone 0 1793707200000)
     (JObj [(''birth'', JDate (Num (- 43200000)))]) = Inr (Num 56)"
  by (simp add: calculateAge2_def calculateAge_unguarded_spec_def date_eval)

text \<open>
  Claim C3, amended.  The unnamed copy of \<open>calculateAge\<close> applies the same guards in the
  same order as the first implementation called without a reference date (the pre-1970
  and the calendar-validity guard included), so both raise the same failure on every
  input; where they return, the copy's age is the absolute value of the UTC year of the
  Date built from now minus birth, minus 1970, instead of the calendar-field
  subtraction, and the two may differ only through that arithmetic: for a birth at noon
  UTC on 2003-03-01 and the wall clock at noon UTC on 2004-02-29 the first returns 0 and
  the copy returns 1.
\<close>

theorem calculateAge2_same_guards:
  "calculateAge2 e p =
     (case calculateAge e p None of
        Inl x \<Rightarrow> Inl x
      | Inr a \<Rightarrow>
          Inr (js_abs (js_sub
            (getUTCFullYear (newDateValue (js_sub (Num (now e)) (time_of (js_get p ''birth'')))))
            (Num 1970)))) \<and>
   calculateAge (fixed_zone 0 1078056000000)
     (JObj [(''birth'', JDate (Num 1046520000000))]) None = Inr (Num 0) \<and>
   calculateAge2 (fixed_zone 0 1078056000000)
     (JObj [(''birth'', JDate (Num 1046520000000))]) = Inr (Num 1)"
proof (intro conjI)
  show "calculateAge2 e p =
     (case calculateAge e p None of
        Inl x \<Rightarrow> Inl x
      | Inr a \<Rightarrow>
          Inr (js_abs (js_sub
            (getUTCFullYear (newDateValue (js_sub (Num (now e)) (time_of (js_get p ''birth'')))))
            (Num 1970))))"
    by (simp add: calculateAge2_def calculateAge_def Let_def split: sum.splits bool.splits)
  show "calculateAge (fixed_zone 0 1078056000000)
     (JObj [(''birth'', JDate (Num 1046520000000))]) None = Inr (Num 0)"
    by (simp add: calculateAge_def date_eval)
  show "calculateAge2 (fixed_zone 0 1078056000000)
     (JObj [(''birth'', JDate (Num 1046520000000))]) = Inr (Num 1)"
    by (simp add: calculateAge2_def date_eval)
qed

theorem calculateAge2_same_guards_witness:
  "calculateAge2 (fixed_zone 0 1793707200000) (JObj [(''birth'', JDate (Num (- 43200000)))]) =
     Inl (Error ''invalid date'')"
proof -
  have "calculateAge (fixed_zone 0 1793707200000)
      (JObj [(''birth'', JDate (Num (- 43200000)))]) None = Inl (Error ''invalid date'')"
    by (simp add: calculateAge_def date_eval)
  with calculateAge2_same_guards
    [THEN conjunct1, of "fixed_zone 0 1793707200000" "JObj [(''birth'', JDate (Num (- 43200000)))]"]
  show ?thesis by simp
qed

section \<open>Facts about regular expressions\<close>

lemma nullable_iff: "nullable r \<longleftrightarrow> [] \<in> lang r"
  by (induction r) (auto simp: conc_def intro: star.star_empty)

lemma star_cons_split:
  assumes "w \<in> star A" and "w = c # x"
  shows "\<exists>u v. x = u @ v \<and> c # u \<in> A \<and> v \<in> star A"
  using assms
proof (induction arbitrary: x rule: star.induct)
  case star_empty
  then show ?case by simp
next
  case (star_step u v)
  show ?case
  proof (cases u)
    case Nil
    with star_step show ?thesis by simp
  next
    case (Cons a u')
    with star_step.prems star_step.hyps(1,2) show ?thesis by auto
  qed
qed

lemma deriv_iff: "w \<in> lang (deriv c r) \<longleftrightarrow> c # w \<in> lang r"
proof (induction r arbitrary: w)
  case (Seq r s)
  show ?case
  proof
    assume "w \<in> lang (deriv c (Seq r s))"
    then consider u v where "w = u @ v" "u \<in> lang (deriv c r)" "v \<in> lang s"
      | "nullable r" "w \<in> lang (deriv c s)"
      by (auto simp: conc_def split: if_splits)
    then show "c # w \<in> lang (Seq r s)"
    proof cases
      case 1
      then have "c # u \<in> lang r" by (simp add: Seq.IH)
      with 1 have "(c # u) @ v \<in> conc (lang r) (lang s)"
        unfolding conc_def by blast
      with 1 show ?thesis by simp
    next
      case 2
      then have "[] \<in> lang r" "c # w \<in> lang s"
        by (simp_all add: nullable_iff Seq.IH)
      then have "[] @ (c # w) \<in> conc (lang r) (lang s)"
        unfolding conc_def by blast
      then show ?thesis by simp
    qed
  next
    assume "c # w \<in> lang (Seq r s)"
    then obtain u v where uv: "c # w = u @ v" "u \<in> lang r" "v \<in> lang s"
      by (auto simp: conc_def)
    show "w \<in> lang (deriv c (Seq r s))"
    proof (cases u)
      case Nil
      with uv have "nullable r" "w \<in> lang (deriv c s)"
        by (simp_all add: nullable_iff Seq.IH)
      then show ?thesis by simp
    next
      case (Cons a u')
      with uv have "a = c" "w = u' @ v" by simp_all
      with uv(2) Cons have "u' \<in> lang (deriv c r)"
        by (simp add: Seq.IH)
      with uv(3) \<open>w = u' @ v\<close> have "w \<in> conc (lang (deriv c r)) (lang s)"
        unfolding conc_def by blast
      then show ?thesis by simp
    qed
  qed
next
  case (Star r)
  show ?case
  proof
    assume "w \<in> lang (deriv c (Star r))"
    then obtain u v where "w = u @ v" "u \<in> lang (deriv c r)" "v \<in> star (lang r)"
      by (auto simp: conc_def)
    then have "(c # u) @ v \<in> star (lang r)"
      by (intro star.star_step) (simp_all add: Star.IH)
    with \<open>w = u @ v\<close> show "c # w \<in> lang (Star r)" by simp
  next
    assume "c # w \<in> lang (Star r)"
    then have "c # w \<in> star (lang r)" by simp
    from star_cons_split [OF this refl]
    obtain u v where "w = u @ v" "c # u \<in> lang r" "v \<in> star (lang r)" by blast
    then have "w \<in> conc (lang (deriv c r)) (star (lang r))"
      unfolding conc_def using Star.IH by blast
    then show "w \<in> lang (deriv c (Star r))" by simp
  qed
qed auto

lemma matches_iff: "matches r w \<longleftrightarrow> w \<in> lang r"
  by (induction w arbitrary: r) (simp_all add: nullable_iff deriv_iff)

text \<open>Strings over one class.\<close>

lemma star_singletons: "w \<in> star {[c] | c. P c} \<longleftrightarrow> (\<forall>c \<in> set w. P c)"
proof
  assume "w \<in> star {[c] | c. P c}"
  then show "\<forall>c \<in> set w. P c"
    by (induction rule: star.induct) auto
next
  assume "\<forall>c \<in> set w. P c"
  then show "w \<in> star {[c] | c. P c}"
  proof (induction w)
    case Nil
    show ?case by (rule star.star_empty)
  next
    case (Cons a w)
    then have "[a] \<in> {[c] | c. P c}" "w \<in> star {[c] | c. P c}" by simp_all
    then have "[a] @ w \<in> star {[c] | c. P c}" by (rule star.star_step)
    then show ?case by simp
  qed
qed

lemma star_cls: "w \<in> star (lang (Cls rs)) \<longleftrightarrow> (\<forall>c \<in> set w. in_ranges c rs)"
  by (simp add: star_singletons)

lemma star_ncls: "w \<in> star (lang (NCls rs)) \<longleftrightarrow> (\<forall>c \<in> set w. \<not> in_ranges c rs)"
  by (simp add: star_singletons)

lemma lang_plus_cls:
  "w \<in> lang (rx_plus (Cls rs)) \<longleftrightarrow> w \<noteq> [] \<and> (\<forall>c \<in> set w. in_ranges c rs)"
proof
  assume "w \<in> lang (rx_plus (Cls rs))"
  then show "w \<noteq> [] \<and> (\<forall>c \<in> set w. in_ranges c rs)"
    by (auto simp: rx_plus_def conc_def star_singletons)
next
  assume a: "w \<noteq> [] \<and> (\<forall>c \<in> set w. in_ranges c rs)"
  then obtain c x where w: "w = c # x" by (cases w) auto
  with a have "[c] \<in> lang (Cls rs)" "x \<in> star (lang (Cls rs))"
    by (simp_all add: star_singletons)
  then have "[c] @ x \<in> conc (lang (Cls rs)) (star (lang (Cls rs)))"
    unfolding conc_def by blast
  with w show "w \<in> lang (rx_plus (Cls rs))"
    by (simp add: rx_plus_def)
qed

lemma lang_exactly_cls:
  "w \<in> lang (rx_exactly n (Cls rs)) \<longleftrightarrow> length w = n \<and> (\<forall>c \<in> set w. in_ranges c rs)"
proof (induction n arbitrary: w)
  case 0
  show ?case by auto
next
  case (Suc n)
  show ?case
  proof
    assume "w \<in> lang (rx_exactly (Suc n) (Cls rs))"
    then show "length w = Suc n \<and> (\<forall>c \<in> set w. in_ranges c rs)"
      by (auto simp: conc_def Suc.IH)
  next
    assume a: "length w = Suc n \<and> (\<forall>c \<in> set w. in_ranges c rs)"
    then obtain c x where w: "w = c # x" by (cases w) auto
    with a have "[c] \<in> lang (Cls rs)" "x \<in> lang (rx_exactly n (Cls rs))"
      by (simp_all add: Suc.IH)
    then have "[c] @ x \<in> conc (lang (Cls rs)) (lang (rx_exactly n (Cls rs)))"
      unfolding conc_def by blast
    with w show "w \<in> lang (rx_exactly (Suc n) (Cls rs))" by simp
  qed
qed

lemma lang_at_least_cls:
  "w \<in> lang (rx_at_least n (Cls rs)) \<longleftrightarrow> n \<le> length w \<and> (\<forall>c \<in> set w. in_ranges c rs)"
proof
  assume "w \<in> lang (rx_at_least n (Cls rs))"
  then show "n \<le> length w \<and> (\<forall>c \<in> set w. in_ranges c rs)"
    by (auto simp: rx_at_least_def conc_def lang_exactly_cls star_singletons)
next
  assume a: "n \<le> length w \<and> (\<forall>c \<in> set w. in_ranges c rs)"
  have "take n w \<in> lang (rx_exactly n (Cls rs))"
    using a by (auto simp: lang_exactly_cls dest: in_set_takeD)
  moreover have "drop n w \<in> star (lang (Cls rs))"
    using a by (auto simp: star_singletons dest: in_set_dropD)
  ultimately have "take n w @ drop n w \<in> conc (lang (rx_exactly n (Cls rs))) (star (lang (Cls rs)))"
    unfolding conc_def by blast
  then show "w \<in> lang (rx_at_least n (Cls rs))"
    by (simp add: rx_at_least_def)
qed

lemma regex_test_unanchored:
  "regex_test (Unanchored r) s \<longleftrightarrow> (\<exists>u v w. s = u @ v @ w \<and> v \<in> lang r)"
proof
  assume "regex_test (Unanchored r) s"
  then obtain t v where "suffix t s" "prefix v t" "v \<in> lang r"
    by (auto simp: list_ex_iff matches_iff)
  then show "\<exists>u v w. s = u @ v @ w \<and> v \<in> lang r"
    by (auto simp: suffix_def prefix_def)
next
  assume "\<exists>u v w. s = u @ v @ w \<and> v \<in> lang r"
  then obtain u v w where "s = u @ v @ w" "v \<in> lang r" by blast
  then have "v @ w \<in> set (suffixes s)" "v \<in> set (prefixes (v @ w))" "matches r v"
    by (simp_all add: suffix_def matches_iff)
  then show "regex_test (Unanchored r) s"
    unfolding regex_test.simps list_ex_iff by blast
qed

lemma has_open_tag_iff: "has_open_tag s \<longleftrightarrow> 60 \<in> set s"
proof
  assume "has_open_tag s"
  then show "60 \<in> set s" by (auto simp: has_open_tag_def)
next
  assume "60 \<in> set s"
  then obtain u w where "s = u @ 60 # w" by (auto dest: split_list)
  then have "s = u @ [60] @ [] @ w \<and> 62 \<notin> set ([] :: nat list)" by simp
  then show "has_open_tag s" unfolding has_open_tag_def by blast
qed

lemma tag_regex_test: "regex_test tag_regex s \<longleftrightarrow> has_open_tag s"
proof
  assume "regex_test tag_regex s"
  then obtain u v w where s: "s = u @ v @ w"
    and v: "v \<in> lang (Seq (Cls [(60, 60)]) (Star (NCls [(62, 62)])))"
    unfolding tag_regex_def regex_test_unanchored by blast
  from v obtain r where "v = 60 # r" "\<forall>c \<in> set r. \<not> in_ranges c [(62, 62)]"
    by (auto simp: conc_def star_singletons in_ranges_def)
  then have "s = u @ [60] @ r @ w \<and> 62 \<notin> set r"
    using s by (auto simp: in_ranges_def)
  then show "has_open_tag s" unfolding has_open_tag_def by blast
next
  assume "has_open_tag s"
  then obtain u r w where s: "s = u @ [60] @ r @ w" and r: "62 \<notin> set r"
    unfolding has_open_tag_def by blast
  have "[60] \<in> lang (Cls [(60, 60)])"
    by (simp add: in_ranges_def)
  moreover have "r \<in> lang (Star (NCls [(62, 62)]))"
    using r by (auto simp: star_singletons in_ranges_def)
  ultimately have "[60] @ r \<in> lang (Seq (Cls [(60, 60)]) (Star (NCls [(62, 62)])))"
    unfolding lang.simps conc_def by blast
  moreover have "s = u @ ([60] @ r) @ w" using s by simp
  ultimately show "regex_test tag_regex s"
    unfolding tag_regex_def regex_test_unanchored by blast
qed

lemma name_ranges_iff: "in_ranges c name_ranges \<longleftrightarrow> name_char c"
  by (auto simp: in_ranges_def name_ranges_def name_char_def latin_letter_def
      accented_latin_letter_def)

lemma name_regex_test:
  "regex_test name_regex s \<longleftrightarrow> s \<noteq> [] \<and> (\<forall>c \<in> set s. name_char c)"
  by (simp add: name_regex_def matches_iff lang_plus_cls name_ranges_iff)

lemma email_ranges_iff:
  "in_ranges c [(97, 122), (65, 90), (48, 57), (46, 46), (95, 95), (45, 45)] \<longleftrightarrow> email_local_char c"
  "in_ranges c [(97, 122), (65, 90), (48, 57), (46, 46), (45, 45)] \<longleftrightarrow> email_domain_char c"
  "in_ranges c [(97, 122), (65, 90)] \<longleftrightarrow> latin_letter c"
  by (auto simp: in_ranges_def email_local_char_def email_domain_char_def latin_letter_def
      is_digit_def)

lemma concI: "u \<in> A \<Longrightarrow> v \<in> B \<Longrightarrow> u @ v \<in> conc A B"
  unfolding conc_def by blast

lemma concE:
  assumes "w \<in> conc A B"
  obtains u v where "w = u @ v" "u \<in> A" "v \<in> B"
  using assms unfolding conc_def by blast

lemma email_regex_test: "regex_test email_regex s \<longleftrightarrow> email_shape s"
proof
  let ?L = "rx_plus (Cls [(97, 122), (65, 90), (48, 57), (46, 46), (95, 95), (45, 45)])"
  let ?D = "rx_plus (Cls [(97, 122), (65, 90), (48, 57), (46, 46), (45, 45)])"
  let ?T = "rx_at_least 2 (Cls [(97, 122), (65, 90)])"
  assume "regex_test email_regex s"
  then have "s \<in> conc (lang ?L) (conc (lang (Cls [(64, 64)]))
      (conc (lang ?D) (conc (lang (Cls [(46, 46)])) (lang ?T))))"
    by (simp only: email_regex_def regex_test.simps matches_iff lang.simps)
  then obtain l r1 where 1: "s = l @ r1" "l \<in> lang ?L"
    and r1: "r1 \<in> conc (lang (Cls [(64, 64)])) (conc (lang ?D) (conc (lang (Cls [(46, 46)])) (lang ?T)))"
    by (rule concE)
  from r1 obtain a r2 where 2: "r1 = a @ r2" "a \<in> lang (Cls [(64, 64)])"
    and r2: "r2 \<in> conc (lang ?D) (conc (lang (Cls [(46, 46)])) (lang ?T))"
    by (rule concE)
  from r2 obtain d r3 where 3: "r2 = d @ r3" "d \<in> lang ?D"
    and r3: "r3 \<in> conc (lang (Cls [(46, 46)])) (lang ?T)"
    by (rule concE)
  from r3 obtain p t where 4: "r3 = p @ t" "p \<in> lang (Cls [(46, 46)])" "t \<in> lang ?T"
    by (rule concE)
  have "a = [64]" "p = [46]"
    using 2(2) 4(2) by (auto simp: in_ranges_def)
  then have "s = l @ [64] @ d @ [46] @ t"
    using 1(1) 2(1) 3(1) 4(1) by simp
  moreover have "l \<noteq> [] \<and> list_all email_local_char l"
    using 1(2) by (simp add: lang_plus_cls email_ranges_iff list_all_iff)
  moreover have "d \<noteq> [] \<and> list_all email_domain_char d"
    using 3(2) by (simp add: lang_plus_cls email_ranges_iff list_all_iff)
  moreover have "2 \<le> length t \<and> list_all latin_letter t"
    using 4(3) by (simp add: lang_at_least_cls email_ranges_iff list_all_iff)
  ultimately show "email_shape s"
    unfolding email_shape_def by blast
next
  let ?L = "rx_plus (Cls [(97, 122), (65, 90), (48, 57), (46, 46), (95, 95), (45, 45)])"
  let ?D = "rx_plus (Cls [(97, 122), (65, 90), (48, 57), (46, 46), (45, 45)])"
  let ?T = "rx_at_least 2 (Cls [(97, 122), (65, 90)])"
  assume "email_shape s"
  then obtain l d t where s: "s = l @ [64] @ d @ [46] @ t"
    and l: "l \<noteq> []" "list_all email_local_char l"
    and d: "d \<noteq> []" "list_all email_domain_char d"
    and t: "2 \<le> length t" "list_all latin_letter t"
    unfolding email_shape_def by blast
  have "l \<in> lang ?L"
    using l by (simp add: lang_plus_cls email_ranges_iff list_all_iff)
  moreover have "[64] \<in> lang (Cls [(64, 64)])"
    by (simp add: in_ranges_def)
  moreover have "d \<in> lang ?D"
    using d by (simp add: lang_plus_cls email_ranges_iff list_all_iff)
  moreover have "[46] \<in> lang (Cls [(46, 46)])"
    by (simp add: in_ranges_def)
  moreover have "t \<in> lang ?T"
    using t by (simp add: lang_at_least_cls email_ranges_iff list_all_iff)
  ultimately have "l @ [64] @ d @ [46] @ t \<in> conc (lang ?L) (conc (lang (Cls [(64, 64)]))
      (conc (lang ?D) (conc (lang (Cls [(46, 46)])) (lang ?T))))"
    by (intro concI)
  then show "regex_test email_regex s"
    by (simp only: email_regex_def regex_test.simps matches_iff lang.simps s)
qed

lemma validateEmail_spec:
  "validateEmail x =
     (if is_string x \<and> email_shape (string_of x) then Inr ()
      else Inl \<lparr>code = ''INVALID_EMAIL'', message = ''Invalid email format''\<rparr>)"
  unfolding validateEmail_def email_regex_test by auto

lemmas regex_eval =
  str_def rx_plus_def rx_at_least_def in_ranges_def numeral_2_eq_2 email_regex_def
  name_regex_def tag_regex_def name_ranges_def postCode_regex_def digit_ranges_def
  town_regex_def space_ranges_def

section \<open>The identity validator\<close>

text \<open>
  Claim C6.  \<open>validateIdentity\<close> checks its input in this precedence: a non-string fails
  \<open>INVALID_IDENTITY\<close> with message \<open>Invalid name\<close>; otherwise a string containing a \<open><\<close>
  followed by any run of characters other than \<open>>\<close> fails with message \<open>XSS detected\<close>,
  before the character-set check; otherwise a string that is empty or contains a
  character other than Latin letters, accented Latin letters and hyphens fails with
  message \<open>Invalid characters in name\<close>; otherwise it returns normally.
\<close>

theorem validateIdentity_precedence:
  "validateIdentity x =
     (if \<not> is_string x
      then Inl \<lparr>code = ''INVALID_IDENTITY'', message = ''Invalid name''\<rparr>
      else if has_open_tag (string_of x)
      then Inl \<lparr>code = ''INVALID_IDENTITY'', message = ''XSS detected''\<rparr>
      else if string_of x = [] \<or> (\<exists>c \<in> set (string_of x). \<not> name_char c)
      then Inl \<lparr>code = ''INVALID_IDENTITY'', message = ''Invalid characters in name''\<rparr>
      else Inr ())"
proof (cases x)
  case (JStr s)
  show ?thesis
  proof (cases "has_open_tag s")
    case True
    then show ?thesis
      by (simp add: JStr validateIdentity_def tag_regex_test)
  next
    case False
    then show ?thesis
      by (auto simp: JStr validateIdentity_def tag_regex_test name_regex_test)
  qed
qed (simp_all add: validateIdentity_def)

theorem validateIdentity_precedence_witness:
  "validateIdentity (JNum (Num 5)) =
     Inl \<lparr>code = ''INVALID_IDENTITY'', message = ''Invalid name''\<rparr> \<and>
   validateIdentity (JStr (str ''<1'')) =
     Inl \<lparr>code = ''INVALID_IDENTITY'', message = ''XSS detected''\<rparr> \<and>
   validateIdentity (JStr []) =
     Inl \<lparr>code = ''INVALID_IDENTITY'', message = ''Invalid characters in name''\<rparr> \<and>
   validateIdentity (JStr (str ''Jean123'')) =
     Inl \<lparr>code = ''INVALID_IDENTITY'', message = ''Invalid characters in name''\<rparr> \<and>
   validateIdentity (JStr (str ''Jean-Michel'')) = Inr ()"
proof -
  have 1: "validateIdentity (JNum (Num 5)) =
     Inl \<lparr>code = ''INVALID_IDENTITY'', message = ''Invalid name''\<rparr>"
    using validateIdentity_precedence [of "JNum (Num 5)"] by simp
  have 2: "validateIdentity (JStr (str ''<1'')) =
     Inl \<lparr>code = ''INVALID_IDENTITY'', message = ''XSS detected''\<rparr>"
    using validateIdentity_precedence [of "JStr (str ''<1'')"]
    by (simp add: has_open_tag_iff str_def)
  have 3: "validateIdentity (JStr []) =
     Inl \<lparr>code = ''INVALID_IDENTITY'', message = ''Invalid characters in name''\<rparr>"
    using validateIdentity_precedence [of "JStr []"]
    by (simp add: has_open_tag_iff)
  have 4: "validateIdentity (JStr (str ''Jean123'')) =
     Inl \<lparr>code = ''INVALID_IDENTITY'', message = ''Invalid characters in name''\<rparr>"
    using validateIdentity_precedence [of "JStr (str ''Jean123'')"]
    by (simp add: has_open_tag_iff str_def name_char_def latin_letter_def
        accented_latin_letter_def)
  have 5: "validateIdentity (JStr (str ''Jean-Michel'')) = Inr ()"
    using validateIdentity_precedence [of "JStr (str ''Jean-Michel'')"]
    by (simp add: has_open_tag_iff str_def name_char_def latin_letter_def
        accented_latin_letter_def)
  from 1 2 3 4 5 show ?thesis by blast
qed

section \<open>The email validator\<close>

text \<open>
  Claim C7.  \<open>validateEmail\<close> returns normally exactly on the strings of the shape
  \<open>local@domain.tld\<close>, anchored at both ends, where \<open>local\<close> is one or more of letters,
  digits, dot, underscore and hyphen, \<open>domain\<close> is one or more of letters, digits, dot and
  hyphen, and \<open>tld\<close> is two or more letters; every other input fails with \<open>INVALID_EMAIL\<close>.
  In particular \<open>test@gmail.com\<close> succeeds, and \<open>test@\<close>, \<open>@example.com\<close>, \<open>test.com\<close> and
  \<open>//test@gmail.com\<close> fail.
\<close>

theorem validateEmail_shape:
  "validateEmail x =
     (if is_string x \<and> email_shape (string_of x) then Inr ()
      else Inl \<lparr>code = ''INVALID_EMAIL'', message = ''Invalid email format''\<rparr>) \<and>
   validateEmail (JStr (str ''test@gmail.com'')) = Inr () \<and>
   validateEmail (JStr (str ''test@'')) =
     Inl \<lparr>code = ''INVALID_EMAIL'', message = ''Invalid email format''\<rparr> \<and>
   validateEmail (JStr (str ''@example.com'')) =
     Inl \<lparr>code = ''INVALID_EMAIL'', message = ''Invalid email format''\<rparr> \<and>
   validateEmail (JStr (str ''test.com'')) =
     Inl \<lparr>code = ''INVALID_EMAIL'', message = ''Invalid email format''\<rparr> \<and>
   validateEmail (JStr (str ''//test@gmail.com'')) =
     Inl \<lparr>code = ''INVALID_EMAIL'', message = ''Invalid email format''\<rparr>"
proof (intro conjI)
  show "validateEmail x =
     (if is_string x \<and> email_shape (string_of x) then Inr ()
      else Inl \<lparr>code = ''INVALID_EMAIL'', message = ''Invalid email format''\<rparr>)"
    by (rule validateEmail_spec)
  show "validateEmail (JStr (str ''test@gmail.com'')) = Inr ()"
    by (simp add: validateEmail_def regex_eval)
  show "validateEmail (JStr (str ''test@'')) =
     Inl \<lparr>code = ''INVALID_EMAIL'', message = ''Invalid email format''\<rparr>"
    by (simp add: validateEmail_def regex_eval)
  show "validateEmail (JStr (str ''@example.com'')) =
     Inl \<lparr>code = ''INVALID_EMAIL'', message = ''Invalid email format''\<rparr>"
    by (simp add: validateEmail_def regex_eval)
  show "validateEmail (JStr (str ''test.com'')) =
     Inl \<lparr>code = ''INVALID_EMAIL'', message = ''Invalid email format''\<rparr>"
    by (simp add: validateEmail_def regex_eval)
  show "validateEmail (JStr (str ''//test@gmail.com'')) =
     Inl \<lparr>code = ''INVALID_EMAIL'', message = ''Invalid email format''\<rparr>"
    by (simp add: validateEmail_def regex_eval)
qed

theorem validateEmail_shape_witness:
  "validateEmail (JStr (str ''a@b.fr'')) = Inr () \<and>
   validateEmail (JBool True) =
     Inl \<lparr>code = ''INVALID_EMAIL'', message = ''Invalid email format''\<rparr>"
proof
  have "str ''a@b.fr'' = [97] @ [64] @ [98] @ [46] @ [102, 114] \<and>
      [97] \<noteq> ([] :: nat list) \<and> list_all email_local_char [97] \<and>
      [98] \<noteq> ([] :: nat list) \<and> list_all email_domain_char [98] \<and>
      2 \<le> length [102, 114 :: nat] \<and> list_all latin_letter [102, 114]"
    by (simp add: str_def email_local_char_def email_domain_char_def latin_letter_def)
  then have "email_shape (str ''a@b.fr'')"
    unfolding email_shape_def by blast
  with validateEmail_shape [THEN conjunct1, of "JStr (str ''a@b.fr'')"]
  show "validateEmail (JStr (str ''a@b.fr'')) = Inr ()"
    by simp
  from validateEmail_shape [THEN conjunct1, of "JBool True"]
  show "validateEmail (JBool True) =
     Inl \<lparr>code = ''INVALID_EMAIL'', message = ''Invalid email format''\<rparr>"
    by simp
qed

section \<open>The age validator\<close>

lemma validateAge_on_valid:
  "validateAge e (JDate (Num b)) =
     (if now e < b
      then Inl \<lparr>code = ''INVALID_DATE'', message = ''Birth date cannot be in the future''\<rparr>
      else if YearFromTime (LocalTime e (now e)) - YearFromTime (LocalTime e b) -
          (if MonthFromTime (LocalTime e (now e)) < MonthFromTime (LocalTime e b) \<or>
              (MonthFromTime (LocalTime e (now e)) = MonthFromTime (LocalTime e b) \<and>
               DateFromTime (LocalTime e (now e)) < DateFromTime (LocalTime e b))
           then 1 else 0) < 18
      then Inl \<lparr>code = ''INVALID_AGE'', message = ''Must be at least 18 years old''\<rparr>
      else Inr ())"
  by (auto simp: validateAge_def js_gt_def Let_def)

lemma validateAge_on_invalid:
  "\<not> valid_Date x \<Longrightarrow>
     validateAge e x = Inl \<lparr>code = ''INVALID_DATE'', message = ''Birth date is invalid''\<rparr>"
  by (simp add: validateAge_def)

text \<open>
  Claim C4.  For every input \<open>d\<close>, \<open>validateAge(d)\<close> fails with kind \<open>INVALID_DATE\<close> if and
  only if \<open>d\<close> is not a valid Date (not a Date instance, or a Date whose time is \<open>NaN\<close>) or
  \<open>d\<close> is strictly later than the wall clock at the call; on every other input it
  returns normally or fails with kind \<open>INVALID_AGE\<close>.
\<close>

theorem validateAge_invalid_date:
  "((\<exists>m. validateAge e x = Inl \<lparr>code = ''INVALID_DATE'', message = m\<rparr>) \<longleftrightarrow>
      (\<forall>t. x \<noteq> JDate (Num t)) \<or> (\<exists>t. x = JDate (Num t) \<and> now e < t)) \<and>
   (validateAge e x = Inr () \<or>
    validateAge e x = Inl \<lparr>code = ''INVALID_AGE'', message = ''Must be at least 18 years old''\<rparr> \<or>
    (\<exists>m. validateAge e x = Inl \<lparr>code = ''INVALID_DATE'', message = m\<rparr>))"
proof (cases "valid_Date x")
  case True
  then obtain b where "x = JDate (Num b)"
    by (auto simp: valid_Date_iff)
  then show ?thesis
    by (simp add: validateAge_on_valid)
next
  case False
  then have "\<forall>t. x \<noteq> JDate (Num t)"
    by (simp add: valid_Date_iff)
  with validateAge_on_invalid [OF False] show ?thesis
    by simp
qed

theorem validateAge_invalid_date_witness:
  "validateAge (fixed_zone 0 1793707200000) (JDate NaN) =
     Inl \<lparr>code = ''INVALID_DATE'', message = ''Birth date is invalid''\<rparr> \<and>
   validateAge (fixed_zone 0 1793707200000) (JDate (Num 1793707200001)) =
     Inl \<lparr>code = ''INVALID_DATE'', message = ''Birth date cannot be in the future''\<rparr> \<and>
   validateAge (fixed_zone 0 1793707200000) (JDate (Num 1793707200000)) =
     Inl \<lparr>code = ''INVALID_AGE'', message = ''Must be at least 18 years old''\<rparr>"
proof (intro conjI)
  let ?e = "fixed_zone 0 1793707200000"
  have "\<exists>m. validateAge ?e (JDate NaN) = Inl \<lparr>code = ''INVALID_DATE'', message = m\<rparr>"
    using validateAge_invalid_date [of ?e "JDate NaN"] by simp
  then show "validateAge ?e (JDate NaN) =
     Inl \<lparr>code = ''INVALID_DATE'', message = ''Birth date is invalid''\<rparr>"
    by (simp add: validateAge_def)
  have "\<exists>m. validateAge ?e (JDate (Num 1793707200001)) =
      Inl \<lparr>code = ''INVALID_DATE'', message = m\<rparr>"
    using validateAge_invalid_date [of ?e "JDate (Num 1793707200001)"] by simp
  then show "validateAge ?e (JDate (Num 1793707200001)) =
     Inl \<lparr>code = ''INVALID_DATE'', message = ''Birth date cannot be in the future''\<rparr>"
    by (simp add: validateAge_def js_gt_def)
  have "\<not> (\<exists>m. validateAge ?e (JDate (Num 1793707200000)) =
      Inl \<lparr>code = ''INVALID_DATE'', message = m\<rparr>)"
    using validateAge_invalid_date [of ?e "JDate (Num 1793707200000)"] by simp
  moreover have "validateAge ?e (JDate (Num 1793707200000)) \<noteq> Inr ()"
    by (simp add: validateAge_def js_gt_def date_eval)
  ultimately show "validateAge ?e (JDate (Num 1793707200000)) =
     Inl \<lparr>code = ''INVALID_AGE'', message = ''Must be at least 18 years old''\<rparr>"
    using validateAge_invalid_date [of ?e "JDate (Num 1793707200000)"] by blast
qed

text \<open>
  Claim C5.  For a valid birth date exactly 18 years before now, with the month and the
  day-of-month of now (and so not after now), \<open>validateAge\<close> does not fail; for a birth
  date on the calendar day after that boundary (not after now either) it fails with kind
  \<open>INVALID_AGE\<close>.
\<close>

theorem validateAge_boundary:
  assumes "YearFromTime (LocalTime e b) = YearFromTime (LocalTime e (now e)) - 18"
    and "MonthFromTime (LocalTime e b) = MonthFromTime (LocalTime e (now e))"
    and "DateFromTime (LocalTime e b) = DateFromTime (LocalTime e (now e))"
  shows "(b \<le> now e \<longrightarrow> validateAge e (JDate (Num b)) = Inr ()) \<and>
    (b' \<le> now e \<and> Day (LocalTime e b') = Day (LocalTime e b) + 1 \<longrightarrow>
     validateAge e (JDate (Num b')) =
       Inl \<lparr>code = ''INVALID_AGE'', message = ''Must be at least 18 years old''\<rparr>)"
proof (intro conjI impI)
  assume "b \<le> now e"
  with assms show "validateAge e (JDate (Num b)) = Inr ()"
    by (simp add: validateAge_on_valid)
next
  assume a: "b' \<le> now e \<and> Day (LocalTime e b') = Day (LocalTime e b) + 1"
  then have "Day (LocalTime e b') = Day (LocalTime e b) + 1" by simp
  from fields_next_day [OF this] assms
  have "YearFromTime (LocalTime e (now e)) - 18 < YearFromTime (LocalTime e b') \<or>
    (YearFromTime (LocalTime e (now e)) - 18 = YearFromTime (LocalTime e b') \<and>
     (MonthFromTime (LocalTime e (now e)) < MonthFromTime (LocalTime e b') \<or>
      (MonthFromTime (LocalTime e (now e)) = MonthFromTime (LocalTime e b') \<and>
       DateFromTime (LocalTime e (now e)) < DateFromTime (LocalTime e b'))))"
    by simp
  with a show "validateAge e (JDate (Num b')) =
       Inl \<lparr>code = ''INVALID_AGE'', message = ''Must be at least 18 years old''\<rparr>"
    by (auto simp: validateAge_on_valid)
qed

theorem validateAge_boundary_witness:
  "validateAge (fixed_zone 0 1793707200000) (JDate (Num 1225713600000)) = Inr () \<and>
   validateAge (fixed_zone 0 1793707200000) (JDate (Num 1225800000000)) =
     Inl \<lparr>code = ''INVALID_AGE'', message = ''Must be at least 18 years old''\<rparr>"
proof -
  let ?e = "fixed_zone 0 1793707200000"
  have f: "YearFromTime (LocalTime ?e 1225713600000) = YearFromTime (LocalTime ?e (now ?e)) - 18"
    "MonthFromTime (LocalTime ?e 1225713600000) = MonthFromTime (LocalTime ?e (now ?e))"
    "DateFromTime (LocalTime ?e 1225713600000) = DateFromTime (LocalTime ?e (now ?e))"
    by (simp_all add: calendar_eval)
  have d: "(1225713600000 :: int) \<le> now ?e"
    "1225800000000 \<le> now ?e \<and>
     Day (LocalTime ?e 1225800000000) = Day (LocalTime ?e 1225713600000) + 1"
    by (simp_all add: Day_def msPerDay_def)
  from validateAge_boundary [OF f, of 1225800000000] d
  show ?thesis by blast
qed

section \<open>Determinism of the validators\<close>


section \<open>The form controller: the submittable flag\<close>

lemma is_blank_iff: "is_blank v \<longleftrightarrow> js_trim v = []"
  by (auto simp: is_blank_def js_trim_def)

lemma caught_text_validateEmail: "validateEmail x = Inl err \<Longrightarrow> caught_text err \<noteq> []"
  by (auto simp: validateEmail_def caught_text_def split: if_splits)

lemma caught_text_validateIdentity: "validateIdentity x = Inl err \<Longrightarrow> caught_text err \<noteq> []"
  by (auto simp: validateIdentity_def caught_text_def split: if_splits)

lemma caught_text_validatePostCode: "validatePostCode x = Inl err \<Longrightarrow> caught_text err \<noteq> []"
  by (auto simp: validatePostCode_def caught_text_def split: if_splits)

lemma caught_text_validateTown: "validateTown x = Inl err \<Longrightarrow> caught_text err \<noteq> []"
  by (auto simp: validateTown_def caught_text_def split: if_splits)

lemma validateAge_errors:
  "validateAge e x = Inl err \<Longrightarrow>
     err = \<lparr>code = ''INVALID_DATE'', message = ''Birth date is invalid''\<rparr> \<or>
     err = \<lparr>code = ''INVALID_DATE'', message = ''Birth date cannot be in the future''\<rparr> \<or>
     err = \<lparr>code = ''INVALID_AGE'', message = ''Must be at least 18 years old''\<rparr>"
  unfolding validateAge_def Let_def by (simp split: if_splits)

lemma caught_text_validateAge: "validateAge e x = Inl err \<Longrightarrow> caught_text err \<noteq> []"
  by (drule validateAge_errors) (auto simp: caught_text_def)

lemma caught_text_try: "validateField_try e name v = Inl err \<Longrightarrow> caught_text err \<noteq> []"
  unfolding validateField_try_def
  by (simp split: if_splits add: caught_text_validateEmail caught_text_validateIdentity
      caught_text_validatePostCode caught_text_validateTown caught_text_validateAge)
    (auto simp: caught_text_def)

lemma field_error_None:
  "field_error e name v = None \<longleftrightarrow> \<not> is_blank v \<and> validateField_try e name v = Inr ()"
proof (cases "validateField_try e name v")
  case (Inl err)
  then show ?thesis
    by (simp add: field_error_def validateField_def caught_text_try)
next
  case (Inr u)
  then show ?thesis
    by (simp add: field_error_def validateField_def)
qed

lemma map_filter_Nil: "List.map_filter g xs = [] \<longleftrightarrow> (\<forall>x \<in> set xs. g x = None)"
  by (induction xs) (auto simp: List.map_filter_simps split: option.splits)

lemma noErrors_iff:
  "noErrors (validateForm e f) \<longleftrightarrow>
     (\<forall>(name, v) \<in> set (form_entries f). field_error e name v = None)"
  by (simp add: validateForm_def Let_def map_filter_Nil split_def)

lemma allFilled_iff:
  "allFilled (validateForm e f) \<longleftrightarrow> (\<forall>(name, v) \<in> set (form_entries f). \<not> is_blank v)"
  by (simp add: validateForm_def Let_def list_all_iff)

text \<open>
  Claim C8.  For every six-field record, the form's derived submittable flag (the
  \<open>isValid\<close> state that \<open>validateForm\<close> computes from \<open>allFilled\<close> and \<open>noErrors\<close>, which
  enables the submit button) is true if and only if all six fields are non-empty after
  trimming and each field passes its validator with no raised error: the identity
  validator for both names, the email validator, the age validator on the Date parsed
  from the birth string, the post code validator and the town validator.
\<close>

theorem form_submittable:
  "isValid e f \<longleftrightarrow>
     js_trim (lastname f) \<noteq> [] \<and> js_trim (firstname f) \<noteq> [] \<and> js_trim (email f) \<noteq> [] \<and>
     js_trim (birth f) \<noteq> [] \<and> js_trim (postCode f) \<noteq> [] \<and> js_trim (town f) \<noteq> [] \<and>
     validateIdentity (JStr (lastname f)) = Inr () \<and>
     validateIdentity (JStr (firstname f)) = Inr () \<and>
     validateEmail (JStr (email f)) = Inr () \<and>
     validateAge e (JDate (newDateString e (birth f))) = Inr () \<and>
     validatePostCode (JStr (postCode f)) = Inr () \<and>
     validateTown (JStr (town f)) = Inr ()"
proof -
  have t: "validateField_try e ''lastname'' v = validateIdentity (JStr v)"
    "validateField_try e ''firstname'' v = validateIdentity (JStr v)"
    "validateField_try e ''email'' v = validateEmail (JStr v)"
    "validateField_try e ''postCode'' v = validatePostCode (JStr v)"
    "validateField_try e ''town'' v = validateTown (JStr v)"
    "v \<noteq> [] \<Longrightarrow> validateField_try e ''birth'' v = validateAge e (JDate (newDateString e v))"
    for v
    by (simp_all add: validateField_try_def)
  have b: "\<not> is_blank v \<Longrightarrow> v \<noteq> []" for v
    by (auto simp: is_blank_def)
  have "isValid e f \<longleftrightarrow>
    (\<not> is_blank (lastname f) \<and> \<not> is_blank (firstname f) \<and> \<not> is_blank (email f) \<and>
     \<not> is_blank (birth f) \<and> \<not> is_blank (postCode f) \<and> \<not> is_blank (town f)) \<and>
     validateField_try e ''lastname'' (lastname f) = Inr () \<and>
     validateField_try e ''firstname'' (firstname f) = Inr () \<and>
     validateField_try e ''email'' (email f) = Inr () \<and>
     validateField_try e ''birth'' (birth f) = Inr () \<and>
     validateField_try e ''postCode'' (postCode f) = Inr () \<and>
     validateField_try e ''town'' (town f) = Inr ()"
    unfolding isValid_def Let_def noErrors_iff allFilled_iff form_entries_def
    by (simp add: field_error_None) blast
  then show ?thesis
    using b [of "birth f"] by (auto simp: t is_blank_iff)
qed

theorem form_submittable_witness:
  "isValid (fixed_zone 0 1793707200000)
     \<lparr>lastname = str ''Jean'', firstname = str ''Pierre'', email = str ''jean@example.com'',
      birth = str ''1995-05-15'', postCode = str ''75001'', town = str ''Paris''\<rparr> \<and>
   \<not> isValid (fixed_zone 0 1793707200000)
     \<lparr>lastname = str ''Jean'', firstname = str ''Pierre'', email = str ''jean@example.com'',
      birth = str ''1995-05-15'', postCode = str ''7500'', town = str ''Paris''\<rparr>"
proof
  let ?e = "fixed_zone 0 1793707200000"
  have trims: "js_trim (str ''Jean'') \<noteq> []" "js_trim (str ''Pierre'') \<noteq> []"
    "js_trim (str ''jean@example.com'') \<noteq> []" "js_trim (str ''1995-05-15'') \<noteq> []"
    "js_trim (str ''75001'') \<noteq> []" "js_trim (str ''Paris'') \<noteq> []"
    by (simp_all add: js_trim_def is_white_space_def regex_eval)
  have names: "validateIdentity (JStr (str ''Jean'')) = Inr ()"
    "validateIdentity (JStr (str ''Pierre'')) = Inr ()"
    by (simp_all add: validateIdentity_def regex_eval)
  have mail: "validateEmail (JStr (str ''jean@example.com'')) = Inr ()"
    by (simp add: validateEmail_def regex_eval)
  have parsed: "newDateString ?e (str ''1995-05-15'') = Num 800496000000"
    by code_simp
  have age: "validateAge ?e (JDate (newDateString ?e (str ''1995-05-15''))) = Inr ()"
    unfolding parsed by (simp add: validateAge_def js_gt_def date_eval)
  have pc: "validatePostCode (JStr (str ''75001'')) = Inr ()"
    by (simp add: validatePostCode_def regex_eval eval_nat_numeral)
  have tw: "validateTown (JStr (str ''Paris'')) = Inr ()"
    by (simp add: validateTown_def regex_eval)
  show "isValid ?e
     \<lparr>lastname = str ''Jean'', firstname = str ''Pierre'', email = str ''jean@example.com'',
      birth = str ''1995-05-15'', postCode = str ''75001'', town = str ''Paris''\<rparr>"
    using trims names mail age pc tw
    by (simp add: form_submittable)
  have "validatePostCode (JStr (str ''7500'')) \<noteq> Inr ()"
    by (simp add: validatePostCode_def regex_eval eval_nat_numeral)
  then show "\<not> isValid ?e
     \<lparr>lastname = str ''Jean'', firstname = str ''Pierre'', email = str ''jean@example.com'',
      birth = str ''1995-05-15'', postCode = str ''7500'', town = str ''Paris''\<rparr>"
    by (simp add: form_submittable)
qed

end
